theory Spec2Isabelle
  imports Complex_Main
begin

section \<open>The bootstrap resampler of the hypothesis-testing notebook\<close>

text \<open>
  The notebook defines
  \<^verbatim>\<open>
  def bootstrap_samples(rvs, estimator, bootstrap_number):
      n = len(rvs)
      return np.array([estimator(np.random.choice(rvs, size=n))
                       for _ in range(bootstrap_number)])
  \<close>
  The function draws from numpy's global generator. The model threads the state of that
  generator through every call: a function that draws takes the state and returns the
  state it leaves behind. An exception is a value \<open>Inl\<close> of a sum type.
\<close>

subsection \<open>The library calls\<close>

text \<open>
  The exceptions of \<^verbatim>\<open>np.random.choice\<close>: \<open>ValueError\<close> for a population it rejects,
  \<open>IndexError\<close> for an index outside the array in \<^verbatim>\<open>a[idx]\<close>.
\<close>

datatype np_error = ValueError | IndexError

text \<open>
  What reaches the caller of \<^verbatim>\<open>bootstrap_samples\<close>: an exception of the library call, or
  the exception the estimator raised, neither caught nor wrapped by the list comprehension.
\<close>

datatype 'e error = ChoiceError np_error | EstimatorError 'e

text \<open>
  \<^verbatim>\<open>randint(0, high)\<close> of the generator: one integer draw and the next state. The
  generator is not part of the repository, so it is a parameter of the model.
\<close>

type_synonym 'g randint = "nat \<Rightarrow> 'g \<Rightarrow> nat \<times> 'g"

text \<open>The library call \<^verbatim>\<open>np.random.choice(a, size=size)\<close> as the resampler sees it.\<close>

type_synonym ('a, 'g) choice = "'a list \<Rightarrow> nat \<Rightarrow> 'g \<Rightarrow> (np_error + 'a list) \<times> 'g"

text \<open>The estimator: it returns a value or raises.\<close>

type_synonym ('a, 'e, 'b) estimator = "'a list \<Rightarrow> 'e + 'b"

text \<open>\<^verbatim>\<open>randint(0, high, size=size)\<close>: \<open>size\<close> successive draws.\<close>

fun randint_size :: "'g randint \<Rightarrow> nat \<Rightarrow> nat \<Rightarrow> 'g \<Rightarrow> nat list \<times> 'g" where
  "randint_size rng high 0 g = ([], g)"
| "randint_size rng high (Suc k) g =
     (case rng high g of
        (i, g1) \<Rightarrow> (case randint_size rng high k g1 of (idx, g2) \<Rightarrow> (i # idx, g2)))"

text \<open>
  \<^verbatim>\<open>a[idx]\<close> for an array of indices: a new array holding \<open>a[i]\<close> for each index, and
  \<open>IndexError\<close> when an index is out of bounds.
\<close>

definition take_indices :: "'a list \<Rightarrow> nat list \<Rightarrow> np_error + 'a list" where
  "take_indices a idx =
     (if list_all (\<lambda>i. i < length a) idx then Inr (map (\<lambda>i. a ! i) idx) else Inl IndexError)"

text \<open>
  numpy's \<^verbatim>\<open>RandomState.choice(a, size)\<close> for a one-dimensional \<open>a\<close>, with replacement and
  without weights: \<^verbatim>\<open>idx = self.randint(0, pop_size, size=size); return a[idx]\<close>.
  The check of an empty population changed between numpy versions: the versions of the
  notebook's time raise \<open>ValueError\<close> for every empty \<open>a\<close> (\<open>legacy\<close>), later ones only
  when samples are requested (\<open>size \<noteq> 0\<close>). Both are covered by the flag.
\<close>

definition np_choice :: "bool \<Rightarrow> 'g randint \<Rightarrow> ('a, 'g) choice" where
  "np_choice legacy rng a sz g =
     (if length a = 0 \<and> (legacy \<or> sz \<noteq> 0) then (Inl ValueError, g)
      else case randint_size rng (length a) sz g of
             (idx, g1) \<Rightarrow> (take_indices a idx, g1))"

subsection \<open>The resampler\<close>

text \<open>\<^verbatim>\<open>len(range(b))\<close>: a range with a stop of zero or less is empty.\<close>

definition range_len :: "int \<Rightarrow> nat" where
  "range_len b = (if b \<le> 0 then 0 else nat b)"

text \<open>
  The list comprehension, one equation per remaining iteration: draw the resample,
  apply the estimator, go on with the rest. The first exception ends the comprehension.
\<close>

fun bootstrap_trials ::
  "('a, 'g) choice \<Rightarrow> 'a list \<Rightarrow> ('a, 'e, 'b) estimator \<Rightarrow> nat \<Rightarrow> nat \<Rightarrow> 'g
     \<Rightarrow> ('e error + 'b list) \<times> 'g" where
  "bootstrap_trials choice rvs estimator n 0 g = (Inr [], g)"
| "bootstrap_trials choice rvs estimator n (Suc k) g =
     (case choice rvs n g of
        (Inl err, g1) \<Rightarrow> (Inl (ChoiceError err), g1)
      | (Inr resample, g1) \<Rightarrow>
          (case estimator resample of
             Inl e \<Rightarrow> (Inl (EstimatorError e), g1)
           | Inr v \<Rightarrow>
               (case bootstrap_trials choice rvs estimator n k g1 of
                  (Inl err, g2) \<Rightarrow> (Inl err, g2)
                | (Inr vs, g2) \<Rightarrow> (Inr (v # vs), g2))))"

definition bootstrap_samples ::
  "('a, 'g) choice \<Rightarrow> 'a list \<Rightarrow> ('a, 'e, 'b) estimator \<Rightarrow> int \<Rightarrow> 'g
     \<Rightarrow> ('e error + 'b list) \<times> 'g" where
  "bootstrap_samples choice rvs estimator bootstrap_number g =
     (let n = length rvs
      in bootstrap_trials choice rvs estimator n (range_len bootstrap_number) g)"

text \<open>
  What the successive calls \<^verbatim>\<open>np.random.choice(rvs, size=n)\<close> of \<open>k\<close> iterations return, in
  the order of the calls, and the state of the generator after them: the resamples of
  a run whose estimator never raises.
\<close>

fun choice_calls ::
  "('a, 'g) choice \<Rightarrow> 'a list \<Rightarrow> nat \<Rightarrow> nat \<Rightarrow> 'g \<Rightarrow> (np_error + 'a list) list \<times> 'g" where
  "choice_calls choice rvs n 0 g = ([], g)"
| "choice_calls choice rvs n (Suc k) g =
     (case choice rvs n g of
        (c, g1) \<Rightarrow> (case choice_calls choice rvs n k g1 of (cs, g2) \<Rightarrow> (c # cs, g2)))"

subsection \<open>The resampler on a heap of arrays\<close>

text \<open>
  For what the call does to the arrays it shares with its caller, arrays live in a heap:
  the address of an array is its position in the heap, and a new array takes the next
  free address. \<^verbatim>\<open>rvs\<close> is the address \<open>p\<close> of the sample. \<^verbatim>\<open>np.random.choice\<close> reads the
  sample at \<open>p\<close> and returns a new array (\<^verbatim>\<open>a[idx]\<close> with an index array copies). The
  estimator is handed that array and may write to it: it returns its value or exception
  together with the contents of its argument when it is done.
\<close>

type_synonym addr = nat

type_synonym 'a heap = "'a list list"

type_synonym ('a, 'e, 'b) writing_estimator = "'a list \<Rightarrow> ('e + 'b) \<times> 'a list"

fun bootstrap_trials_heap ::
  "('a, 'g) choice \<Rightarrow> addr \<Rightarrow> ('a, 'e, 'b) writing_estimator \<Rightarrow> nat \<Rightarrow> nat \<Rightarrow> 'a heap \<Rightarrow> 'g
     \<Rightarrow> ('e error + 'b list) \<times> 'a heap \<times> 'g" where
  "bootstrap_trials_heap choice p estimator n 0 h g = (Inr [], h, g)"
| "bootstrap_trials_heap choice p estimator n (Suc k) h g =
     (case choice (h ! p) n g of
        (Inl err, g1) \<Rightarrow> (Inl (ChoiceError err), h, g1)
      | (Inr resample, g1) \<Rightarrow>
          (let q = length h; h1 = h @ [resample]
           in case estimator (h1 ! q) of
                (Inl e, written) \<Rightarrow> (Inl (EstimatorError e), h1[q := written], g1)
              | (Inr v, written) \<Rightarrow>
                  (case bootstrap_trials_heap choice p estimator n k (h1[q := written]) g1 of
                     (Inl err, h2, g2) \<Rightarrow> (Inl err, h2, g2)
                   | (Inr vs, h2, g2) \<Rightarrow> (Inr (v # vs), h2, g2))))"

definition bootstrap_samples_heap ::
  "('a, 'g) choice \<Rightarrow> addr \<Rightarrow> ('a, 'e, 'b) writing_estimator \<Rightarrow> int \<Rightarrow> 'a heap \<Rightarrow> 'g
     \<Rightarrow> ('e error + 'b list) \<times> 'a heap \<times> 'g" where
  "bootstrap_samples_heap choice p estimator bootstrap_number h g =
     (let n = length (h ! p)
      in bootstrap_trials_heap choice p estimator n (range_len bootstrap_number) h g)"

subsection \<open>Generators and estimators for the examples\<close>

text \<open>A generator keeps its draws in range when \<^verbatim>\<open>randint(0, high)\<close> is below \<open>high\<close>.\<close>

definition randint_ok :: "'g randint \<Rightarrow> bool" where
  "randint_ok rng = (\<forall>high g. 0 < high \<longrightarrow> fst (rng high g) < high)"

text \<open>A small congruential generator: the state is a number.\<close>

definition lcg_randint :: "nat randint" where
  "lcg_randint high g = (g mod high, (5 * g + 3) mod 16)"

text \<open>A generator that replays a recorded list of draws.\<close>

definition replay_randint :: "(nat list) randint" where
  "replay_randint high g = (case g of [] \<Rightarrow> (0, []) | i # rest \<Rightarrow> (i mod high, rest))"

datatype py_error = ZeroDivisionError

text \<open>\<^verbatim>\<open>lambda x: sum(x) / len(x)\<close>\<close>

definition mean_estimator :: "(real, py_error, real) estimator" where
  "mean_estimator x =
     (if length x = 0 then Inl ZeroDivisionError else Inr (sum_list x / real (length x)))"

text \<open>\<^verbatim>\<open>lambda x: 1 / list(x).count(0)\<close>\<close>

definition inverse_zero_count :: "(real, py_error, real) estimator" where
  "inverse_zero_count x =
     (if count_list x 0 = 0 then Inl ZeroDivisionError else Inr (1 / real (count_list x 0)))"

text \<open>
  \<^verbatim>\<open>def centre(x): m = sum(x) / len(x); x -= m; return m\<close>: it returns the mean and
  subtracts it from its argument in place.
\<close>

definition centring_mean :: "(real, py_error, real) writing_estimator" where
  "centring_mean x =
     (if length x = 0 then (Inl ZeroDivisionError, x)
      else let m = sum_list x / real (length x) in (Inr m, map (\<lambda>v. v - m) x))"

section \<open>Properties\<close>

lemma randint_ok_lcg: "randint_ok lcg_randint"
  by (simp add: randint_ok_def lcg_randint_def)

lemma randint_ok_replay: "randint_ok replay_randint"
  by (simp add: randint_ok_def replay_randint_def split: list.split)

subsection \<open>The library calls and the loop\<close>

lemma randint_okD: "randint_ok rng \<Longrightarrow> 0 < high \<Longrightarrow> rng high g = (i, g1) \<Longrightarrow> i < high"
  unfolding randint_ok_def by (metis fst_conv)

lemma randint_size_length: "randint_size rng high k g = (idx, g1) \<Longrightarrow> length idx = k"
  by (induction k arbitrary: g idx g1) (auto split: prod.splits)

lemma randint_size_in_range:
  "randint_ok rng \<Longrightarrow> 0 < high \<Longrightarrow> randint_size rng high k g = (idx, g1) \<Longrightarrow> list_all (\<lambda>i. i < high) idx"
proof (induction k arbitrary: g idx g1)
  case 0
  then show ?case by simp
next
  case (Suc k)
  obtain i ga where d: "rng high g = (i, ga)" by (cases "rng high g")
  obtain idx' gb where r: "randint_size rng high k ga = (idx', gb)" by (cases "randint_size rng high k ga")
  from Suc.prems(1,2) d have "i < high" by (rule randint_okD)
  moreover from Suc.IH[OF Suc.prems(1,2) r] have "list_all (\<lambda>i. i < high) idx'" .
  moreover from Suc.prems(3) d r have "idx = i # idx'" by simp
  ultimately show ?case by simp
qed

lemma take_indices_Inr: "take_indices a idx = Inr r \<Longrightarrow> length r = length idx \<and> set r \<subseteq> set a"
  by (auto simp: take_indices_def list_all_iff split: if_splits)

lemma np_choice_Inr:
  "np_choice legacy rng a sz g = (Inr r, g1) \<Longrightarrow> length r = sz \<and> set r \<subseteq> set a"
  by (auto simp: np_choice_def split: if_splits prod.splits dest!: take_indices_Inr randint_size_length)

lemma np_choice_returns:
  assumes "randint_ok rng" "a \<noteq> []"
  shows "\<exists>r g1. np_choice legacy rng a sz g = (Inr r, g1)"
proof -
  obtain idx g1 where r: "randint_size rng (length a) sz g = (idx, g1)"
    by (cases "randint_size rng (length a) sz g")
  from assms have "0 < length a" by simp
  from randint_size_in_range[OF assms(1) this r] have "take_indices a idx = Inr (map (\<lambda>i. a ! i) idx)"
    by (simp add: take_indices_def)
  with r assms(2) show ?thesis by (simp add: np_choice_def)
qed

lemma bootstrap_trials_length:
  "bootstrap_trials choice rvs estimator n k g = (Inr vs, g') \<Longrightarrow> length vs = k"
  by (induction k arbitrary: g vs g') (auto split: prod.splits sum.splits)

lemma choice_calls_length: "choice_calls choice rvs n k g = (cs, g') \<Longrightarrow> length cs = k"
  by (induction k arbitrary: g cs g') (auto split: prod.splits)

text \<open>A run that returns: every call of choice returned, the estimator returned on each.\<close>

lemma bootstrap_trials_Inr_calls:
  "bootstrap_trials choice rvs estimator n k g = (Inr vs, g') \<Longrightarrow>
   list_all2 (\<lambda>c v. \<exists>r. c = Inr r \<and> estimator r = Inr v) (fst (choice_calls choice rvs n k g)) vs
   \<and> snd (choice_calls choice rvs n k g) = g'"
proof (induction k arbitrary: g vs g')
  case 0
  then show ?case by simp
next
  case (Suc k)
  from Suc.prems obtain r g1 v vs' where
    c: "choice rvs n g = (Inr r, g1)" and e: "estimator r = Inr v"
    and t: "bootstrap_trials choice rvs estimator n k g1 = (Inr vs', g')" and vs: "vs = v # vs'"
    by (auto split: prod.splits sum.splits)
  from Suc.IH[OF t] c e vs show ?case
    by (auto split: prod.splits)
qed

lemma bootstrap_trials_calls_Inr:
  "list_all2 (\<lambda>c v. \<exists>r. c = Inr r \<and> estimator r = Inr v) (fst (choice_calls choice rvs n k g)) vs \<Longrightarrow>
   bootstrap_trials choice rvs estimator n k g = (Inr vs, snd (choice_calls choice rvs n k g))"
proof (induction k arbitrary: g vs)
  case 0
  then show ?case by simp
next
  case (Suc k)
  obtain c g1 where c: "choice rvs n g = (c, g1)" by (cases "choice rvs n g")
  obtain cs g2 where cs: "choice_calls choice rvs n k g1 = (cs, g2)"
    by (cases "choice_calls choice rvs n k g1")
  from Suc.prems c cs obtain r v vs' where
    "c = Inr r" "estimator r = Inr v" "vs = v # vs'"
    "list_all2 (\<lambda>c v. \<exists>r. c = Inr r \<and> estimator r = Inr v) cs vs'"
    by (auto simp: list_all2_Cons1)
  with Suc.IH[of g1 vs'] c cs show ?case by simp
qed

text \<open>The first trial whose estimator raises decides the outcome.\<close>

lemma bootstrap_trials_first_failure:
  "j < k \<Longrightarrow> fst (choice_calls choice rvs n k g) ! j = Inr r \<Longrightarrow> estimator r = Inl e \<Longrightarrow>
   (\<forall>i<j. \<exists>ri vi. fst (choice_calls choice rvs n k g) ! i = Inr ri \<and> estimator ri = Inr vi) \<Longrightarrow>
   fst (bootstrap_trials choice rvs estimator n k g) = Inl (EstimatorError e)"
proof (induction k arbitrary: g j)
  case 0
  then show ?case by simp
next
  case (Suc k)
  obtain c g1 where c: "choice rvs n g = (c, g1)" by (cases "choice rvs n g")
  obtain cs g2 where cs: "choice_calls choice rvs n k g1 = (cs, g2)"
    by (cases "choice_calls choice rvs n k g1")
  have calls: "fst (choice_calls choice rvs n (Suc k) g) = c # cs" using c cs by simp
  show ?case
  proof (cases j)
    case 0
    with Suc.prems(2,3) calls c show ?thesis by simp
  next
    case (Suc j')
    from Suc.prems(4) calls Suc obtain r0 v0 where r0: "c = Inr r0" "estimator r0 = Inr v0"
      by (metis nth_Cons_0 zero_less_Suc)
    have 1: "j' < k" using Suc.prems(1) Suc by simp
    have 2: "fst (choice_calls choice rvs n k g1) ! j' = Inr r" using Suc.prems(2) calls Suc cs by simp
    have 3: "\<forall>i<j'. \<exists>ri vi. fst (choice_calls choice rvs n k g1) ! i = Inr ri \<and> estimator ri = Inr vi"
    proof (intro allI impI)
      fix i assume "i < j'"
      then have "Suc i < j" using Suc by simp
      with Suc.prems(4) calls cs show "\<exists>ri vi. fst (choice_calls choice rvs n k g1) ! i = Inr ri \<and> estimator ri = Inr vi"
        by (metis fst_conv nth_Cons_Suc)
    qed
    from Suc.IH[OF 1 2 Suc.prems(3) 3] c r0 show ?thesis
      by (auto split: prod.splits sum.splits)
  qed
qed

lemma choice_calls_np_choice:
  assumes "randint_ok rng" "rvs \<noteq> []"
  shows "\<forall>c \<in> set (fst (choice_calls (np_choice legacy rng) rvs n k g)).
           \<exists>r. c = Inr r \<and> length r = n \<and> set r \<subseteq> set rvs"
proof (induction k arbitrary: g)
  case 0
  then show ?case by simp
next
  case (Suc k)
  from np_choice_returns[OF assms] obtain r g1 where
    c: "np_choice legacy rng rvs n g = (Inr r, g1)" by blast
  from np_choice_Inr[OF c] have "length r = n \<and> set r \<subseteq> set rvs" .
  with Suc.IH[of g1] c show ?case by (auto split: prod.splits)
qed

lemma list_all2_exists: "\<forall>c \<in> set cs. \<exists>v. P c v \<Longrightarrow> \<exists>vs. list_all2 P cs vs"
  by (induction cs) (auto simp: list_all2_Cons1)

lemma mean_estimator_returns: "r \<noteq> [] \<Longrightarrow> \<exists>v. mean_estimator r = Inr v"
  by (simp add: mean_estimator_def)

lemma choice_calls_np_choice_Inr:
  "\<forall>c \<in> set (fst (choice_calls (np_choice legacy rng) rvs n k g)).
     \<forall>r. c = Inr r \<longrightarrow> length r = n \<and> set r \<subseteq> set rvs"
proof (induction k arbitrary: g)
  case 0
  then show ?case by simp
next
  case (Suc k)
  obtain c g1 where c: "np_choice legacy rng rvs n g = (c, g1)"
    by (cases "np_choice legacy rng rvs n g")
  have "\<forall>r. c = Inr r \<longrightarrow> length r = n \<and> set r \<subseteq> set rvs"
  proof (intro allI impI)
    fix r assume "c = Inr r"
    with c have "np_choice legacy rng rvs n g = (Inr r, g1)" by simp
    then show "length r = n \<and> set r \<subseteq> set rvs" by (rule np_choice_Inr)
  qed
  with Suc.IH[of g1] c show ?case by (auto split: prod.splits)
qed

lemma np_choice_empty_legacy: "np_choice True rng [] sz g = (Inl ValueError, g)"
  by (simp add: np_choice_def)

lemma np_choice_empty_size0: "np_choice False rng [] 0 g = (Inr [], g)"
  by (simp add: np_choice_def take_indices_def)

lemma bootstrap_trials_empty_size0:
  "bootstrap_trials (np_choice False rng) [] estimator 0 (Suc k) g =
     (case estimator [] of Inl e \<Rightarrow> Inl (EstimatorError e) | Inr v \<Rightarrow> Inr (replicate (Suc k) v), g)"
  by (induction k arbitrary: g) (auto simp: np_choice_empty_size0 split: sum.splits)

lemma bootstrap_trials_cong_members:
  assumes "\<forall>r. set r \<subseteq> set rvs \<longrightarrow> est1 r = est2 r"
  shows "bootstrap_trials (np_choice legacy rng) rvs est1 n k g
       = bootstrap_trials (np_choice legacy rng) rvs est2 n k g"
proof (induction k arbitrary: g)
  case 0
  then show ?case by simp
next
  case (Suc k)
  obtain c g1 where c: "np_choice legacy rng rvs n g = (c, g1)"
    by (cases "np_choice legacy rng rvs n g")
  show ?case
  proof (cases c)
    case (Inl err)
    with c show ?thesis by simp
  next
    case (Inr r)
    with c have "np_choice legacy rng rvs n g = (Inr r, g1)" by simp
    from np_choice_Inr[OF this] have "set r \<subseteq> set rvs" by simp
    with assms have "est1 r = est2 r" by simp
    with c Inr Suc.IH[of g1] show ?thesis by (simp split: sum.splits)
  qed
qed


lemma constant_list: "\<forall>x \<in> set r. x = c \<Longrightarrow> r = replicate (length r) c"
  by (induction r) auto

lemma bootstrap_trials_constant_sample:
  assumes "randint_ok rng" and "rvs \<noteq> []" and "\<forall>x \<in> set rvs. x = c"
  shows "fst (bootstrap_trials (np_choice legacy rng) rvs estimator n (Suc k) g) =
     (case estimator (replicate n c) of
        Inl e \<Rightarrow> Inl (EstimatorError e)
      | Inr v \<Rightarrow> Inr (replicate (Suc k) v))"
proof (induction k arbitrary: g)
  case 0
  from np_choice_returns[OF assms(1,2)] obtain r g1 where
    c: "np_choice legacy rng rvs n g = (Inr r, g1)" by blast
  from np_choice_Inr[OF c] assms(3) have "r = replicate n c"
    using constant_list[of r c] by auto
  with c show ?case by (simp split: sum.splits)
next
  case (Suc k)
  from np_choice_returns[OF assms(1,2)] obtain r g1 where
    c: "np_choice legacy rng rvs n g = (Inr r, g1)" by blast
  from np_choice_Inr[OF c] assms(3) have r: "r = replicate n c"
    using constant_list[of r c] by auto
  show ?case
  proof (cases "estimator (replicate n c)")
    case (Inl e)
    with c r show ?thesis by simp
  next
    case (Inr v)
    with Suc.IH[of g1] have "fst (bootstrap_trials (np_choice legacy rng) rvs estimator n (Suc k) g1)
      = Inr (replicate (Suc k) v)" by simp
    then obtain g2 where "bootstrap_trials (np_choice legacy rng) rvs estimator n (Suc k) g1
      = (Inr (replicate (Suc k) v), g2)" by (metis prod.collapse)
    with c r Inr show ?thesis
      by (simp del: bootstrap_trials.simps add: bootstrap_trials.simps(2)[of _ _ _ _ "Suc k" g])
  qed
qed

lemma inverse_zero_count_raises: "inverse_zero_count [1, 1] = Inl ZeroDivisionError"
  by (simp add: inverse_zero_count_def)

lemma inverse_zero_count_returns: "inverse_zero_count [0, 1] = Inr 1"
  by (simp add: inverse_zero_count_def)

text \<open>The run on the heap against the run on the contents of the sample.\<close>

lemma bootstrap_trials_heap_pure:
  "p < length h \<Longrightarrow> bootstrap_trials_heap choice p estimator n k h g = (res, h', g') \<Longrightarrow>
   bootstrap_trials choice (h ! p) (\<lambda>r. fst (estimator r)) n k g = (res, g')
   \<and> (\<exists>cells. h' = h @ cells \<and> length cells \<le> k)"
proof (induction k arbitrary: h g res h' g')
  case 0
  then show ?case by simp
next
  case (Suc k)
  obtain c g1 where c: "choice (h ! p) n g = (c, g1)" by (cases "choice (h ! p) n g")
  show ?case
  proof (cases c)
    case (Inl err)
    with c Suc.prems(2) show ?thesis by auto
  next
    case (Inr r)
    obtain x w where e: "estimator r = (x, w)" by (cases "estimator r")
    show ?thesis
    proof (cases x)
      case (Inl ex)
      with c Inr e Suc.prems(2) have "res = Inl (EstimatorError ex)" "h' = h @ [w]" "g' = g1"
        by (simp_all add: Let_def)
      with c Inr e Inl show ?thesis by simp
    next
      case v: (Inr v)
      obtain res2 h3 g2 where
        rec: "bootstrap_trials_heap choice p estimator n k (h @ [w]) g1 = (res2, h3, g2)"
        by (cases "bootstrap_trials_heap choice p estimator n k (h @ [w]) g1")
      from Suc.prems(1) have p: "p < length (h @ [w])" and same: "(h @ [w]) ! p = h ! p"
        by (simp_all add: nth_append)
      from Suc.IH[OF p rec] same obtain cells where
        pure: "bootstrap_trials choice (h ! p) (\<lambda>r. fst (estimator r)) n k g1 = (res2, g2)"
        and cells: "h3 = (h @ [w]) @ cells" "length cells \<le> k" by auto
      show ?thesis
      proof (cases res2)
        case err: (Inl err)
        with c Inr e v rec Suc.prems(2) have "res = Inl err" "h' = h3" "g' = g2"
          by (simp_all add: Let_def)
        with c Inr e v pure err cells show ?thesis by simp
      next
        case vs2: (Inr vs2)
        with c Inr e v rec Suc.prems(2) have "res = Inr (v # vs2)" "h' = h3" "g' = g2"
          by (simp_all add: Let_def)
        with c Inr e v pure vs2 cells show ?thesis by simp
      qed
    qed
  qed
qed

lemma bootstrap_trials_heap_cells:
  "p < length h \<Longrightarrow> bootstrap_trials_heap choice p estimator n k h g = (Inr vs, h', g') \<Longrightarrow>
   \<exists>rs. fst (choice_calls choice (h ! p) n k g) = map Inr rs
      \<and> h' = h @ map (\<lambda>r. snd (estimator r)) rs
      \<and> map (\<lambda>r. fst (estimator r)) rs = map Inr vs"
proof (induction k arbitrary: h g vs h' g')
  case 0
  then show ?case by simp
next
  case (Suc k)
  from Suc.prems(2) obtain r g1 where c: "choice (h ! p) n g = (Inr r, g1)"
    by (auto split: prod.splits sum.splits)
  obtain x w where e: "estimator r = (x, w)" by (cases "estimator r")
  from Suc.prems(2) c e obtain v where v: "x = Inr v"
    by (cases x) (simp_all add: Let_def)
  from Suc.prems(2) c e v obtain vs' where
    rec: "bootstrap_trials_heap choice p estimator n k (h @ [w]) g1 = (Inr vs', h', g')"
    and vs: "vs = v # vs'"
    by (auto simp: Let_def split: prod.splits sum.splits)
  from Suc.prems(1) have p: "p < length (h @ [w])" and same: "(h @ [w]) ! p = h ! p"
    by (simp_all add: nth_append)
  from Suc.IH[OF p rec] same obtain rs where
    rs: "fst (choice_calls choice (h ! p) n k g1) = map Inr rs"
      "h' = (h @ [w]) @ map (\<lambda>r. snd (estimator r)) rs"
      "map (\<lambda>r. fst (estimator r)) rs = map Inr vs'" by auto
  from c rs(1) have "fst (choice_calls choice (h ! p) n (Suc k) g) = map Inr (r # rs)"
    by (cases "choice_calls choice (h ! p) n k g1") simp
  moreover from rs(2) e have "h' = h @ map (\<lambda>r. snd (estimator r)) (r # rs)" by simp
  moreover from rs(3) e v vs have "map (\<lambda>r. fst (estimator r)) (r # rs) = map Inr vs" by simp
  ultimately show ?case by blast
qed

lemma mean_estimator_fives: "mean_estimator [5, 5, 5, 5] = Inr 5"
  by (simp add: mean_estimator_def)


section \<open>The claims\<close>

subsection \<open>The size of the replicate set\<close>

text \<open>
  C1. For a non-empty sample and a positive number of replicates \<open>B\<close>, a call that returns
  returns exactly \<open>B\<close> values; and the call does return when the generator keeps its
  draws in range and the estimator returns a value on every list of \<open>len(rvs)\<close> members of
  the sample.
\<close>

theorem bootstrap_samples_length:
  assumes "rvs \<noteq> []" and "0 < B"
  shows "(\<forall>vs g'. bootstrap_samples (np_choice legacy rng) rvs estimator B g = (Inr vs, g')
            \<longrightarrow> int (length vs) = B)
       \<and> (randint_ok rng
            \<and> (\<forall>r. length r = length rvs \<and> set r \<subseteq> set rvs \<longrightarrow> (\<exists>v. estimator r = Inr v))
          \<longrightarrow> (\<exists>vs g'. bootstrap_samples (np_choice legacy rng) rvs estimator B g = (Inr vs, g')
                 \<and> int (length vs) = B))"
proof (intro conjI allI impI)
  fix vs g'
  assume "bootstrap_samples (np_choice legacy rng) rvs estimator B g = (Inr vs, g')"
  then have "length vs = range_len B"
    by (simp add: bootstrap_samples_def bootstrap_trials_length)
  with assms(2) show "int (length vs) = B" by (simp add: range_len_def)
next
  assume a: "randint_ok rng
    \<and> (\<forall>r. length r = length rvs \<and> set r \<subseteq> set rvs \<longrightarrow> (\<exists>v. estimator r = Inr v))"
  let ?cs = "fst (choice_calls (np_choice legacy rng) rvs (length rvs) (range_len B) g)"
  have cs: "\<forall>c \<in> set ?cs. \<exists>r. c = Inr r \<and> length r = length rvs \<and> set r \<subseteq> set rvs"
    using choice_calls_np_choice[of rng rvs] a assms(1) by blast
  have "\<forall>c \<in> set ?cs. \<exists>v. (\<exists>r. c = Inr r \<and> estimator r = Inr v)"
    using cs a by metis
  then have "\<exists>vs. list_all2 (\<lambda>c v. \<exists>r. c = Inr r \<and> estimator r = Inr v) ?cs vs"
    by (rule list_all2_exists)
  then obtain vs where "list_all2 (\<lambda>c v. \<exists>r. c = Inr r \<and> estimator r = Inr v) ?cs vs" ..
  from bootstrap_trials_calls_Inr[OF this]
  have run: "bootstrap_samples (np_choice legacy rng) rvs estimator B g =
    (Inr vs, snd (choice_calls (np_choice legacy rng) rvs (length rvs) (range_len B) g))"
    by (simp add: bootstrap_samples_def)
  then have "length vs = range_len B"
    by (simp add: bootstrap_samples_def bootstrap_trials_length)
  with assms(2) have "int (length vs) = B" by (simp add: range_len_def)
  with run show "\<exists>vs g'. bootstrap_samples (np_choice legacy rng) rvs estimator B g = (Inr vs, g')
                 \<and> int (length vs) = B" by blast
qed

theorem bootstrap_samples_length_witness:
  "[1, 2, 3::real] \<noteq> [] \<and> (0::int) < 2 \<and> randint_ok replay_randint
   \<and> (\<exists>vs g'. bootstrap_samples (np_choice False replay_randint) [1, 2, 3] mean_estimator 2
                  [0, 0, 1, 2, 2, 1] = (Inr vs, g')
          \<and> int (length vs) = 2)"
proof -
  have ne: "[1, 2, 3::real] \<noteq> []" and pos: "(0::int) < 2" by simp_all
  have est: "\<forall>r. length r = length [1, 2, 3::real] \<and> set r \<subseteq> set [1, 2, 3]
               \<longrightarrow> (\<exists>v. mean_estimator r = Inr v)"
    by (auto intro: mean_estimator_returns)
  have "\<exists>vs g'. bootstrap_samples (np_choice False replay_randint) [1, 2, 3] mean_estimator 2
                  [0, 0, 1, 2, 2, 1] = (Inr vs, g')
          \<and> int (length vs) = 2"
    by (rule mp[OF conjunct2[OF bootstrap_samples_length[OF ne pos]]])
       (intro conjI randint_ok_replay est)
  with ne pos randint_ok_replay show ?thesis by (intro conjI)
qed

subsection \<open>The order of the replicates\<close>

text \<open>
  C2. For a non-empty sample of length \<open>n\<close> and a positive \<open>B\<close>, a call that returns the
  replicates \<open>vs\<close> has run \<open>B\<close> trials; the \<open>k\<close>-th call of \<^verbatim>\<open>np.random.choice\<close> returned a
  resample of exactly \<open>n\<close> values, each a member of the sample (a value may be taken more
  than once), and the \<open>k\<close>-th replicate is the estimator's value on that resample.
\<close>

theorem bootstrap_samples_generation_order:
  assumes "rvs \<noteq> []" and "0 < B"
    and "bootstrap_samples (np_choice legacy rng) rvs estimator B g = (Inr vs, g')"
  shows "int (length vs) = B
       \<and> (\<forall>k<length vs. \<exists>r.
            fst (choice_calls (np_choice legacy rng) rvs (length rvs) (range_len B) g) ! k = Inr r
            \<and> length r = length rvs \<and> set r \<subseteq> set rvs \<and> estimator r = Inr (vs ! k))"
proof -
  let ?cs = "fst (choice_calls (np_choice legacy rng) rvs (length rvs) (range_len B) g)"
  from assms(3) have run: "bootstrap_trials (np_choice legacy rng) rvs estimator (length rvs) (range_len B) g = (Inr vs, g')"
    by (simp add: bootstrap_samples_def)
  then have len: "length vs = range_len B" by (rule bootstrap_trials_length)
  from bootstrap_trials_Inr_calls[OF run]
  have all2: "list_all2 (\<lambda>c v. \<exists>r. c = Inr r \<and> estimator r = Inr v) ?cs vs" by simp
  have "\<exists>r. ?cs ! k = Inr r \<and> length r = length rvs \<and> set r \<subseteq> set rvs \<and> estimator r = Inr (vs ! k)"
    if "k < length vs" for k
  proof -
    from all2 that have lc: "k < length ?cs" by (simp add: list_all2_lengthD)
    from all2 that obtain r where r: "?cs ! k = Inr r" "estimator r = Inr (vs ! k)"
      by (auto simp: list_all2_conv_all_nth)
    from lc have "?cs ! k \<in> set ?cs" by simp
    with r(1) choice_calls_np_choice_Inr[of legacy rng rvs "length rvs" "range_len B" g]
    have "length r = length rvs \<and> set r \<subseteq> set rvs" by metis
    with r show ?thesis by blast
  qed
  moreover from len assms(2) have "int (length vs) = B" by (simp add: range_len_def)
  ultimately show ?thesis by blast
qed

theorem bootstrap_samples_generation_order_witness:
  "[1, 2, 3::real] \<noteq> [] \<and> (0::int) < 2
   \<and> bootstrap_samples (np_choice False replay_randint) [1, 2, 3] mean_estimator 2 [0, 0, 1, 2, 2, 1]
       = (Inr [4 / 3, 8 / 3], [])
   \<and> fst (choice_calls (np_choice False replay_randint) [1, 2, 3::real] 3 2 [0, 0, 1, 2, 2, 1])
       = [Inr [1, 1, 2], Inr [3, 3, 2]]
   \<and> (\<exists>r. fst (choice_calls (np_choice False replay_randint) [1, 2, 3::real] (length [1, 2, 3::real])
                (range_len 2) [0, 0, 1, 2, 2, 1]) ! 1 = Inr r
          \<and> length r = length [1, 2, 3::real] \<and> set r \<subseteq> set [1, 2, 3]
          \<and> mean_estimator r = Inr ([4 / 3, 8 / 3] ! 1))"
proof -
  have ne: "[1, 2, 3::real] \<noteq> []" and pos: "(0::int) < 2" by simp_all
  have run: "bootstrap_samples (np_choice False replay_randint) [1, 2, 3] mean_estimator 2 [0, 0, 1, 2, 2, 1]
       = (Inr [4 / 3, 8 / 3], [])"
    by code_simp
  have calls: "fst (choice_calls (np_choice False replay_randint) [1, 2, 3::real] 3 2 [0, 0, 1, 2, 2, 1])
       = [Inr [1, 1, 2], Inr [3, 3, 2]]"
    by code_simp
  have lt: "(1::nat) < length [4 / 3, 8 / 3 :: real]" by simp
  from bootstrap_samples_generation_order[OF ne pos run, THEN conjunct2, rule_format, OF lt]
  have "\<exists>r. fst (choice_calls (np_choice False replay_randint) [1, 2, 3::real] (length [1, 2, 3::real])
                (range_len 2) [0, 0, 1, 2, 2, 1]) ! 1 = Inr r
          \<and> length r = length [1, 2, 3::real] \<and> set r \<subseteq> set [1, 2, 3]
          \<and> mean_estimator r = Inr ([4 / 3, 8 / 3] ! 1)" .
  with ne pos run calls show ?thesis by (intro conjI)
qed

subsection \<open>A number of replicates of zero or less\<close>

text \<open>
  C3 (as amended). The claim that a number of replicates of zero or less fails does not
  hold: the function checks none of its arguments, \<^verbatim>\<open>range(bootstrap_number)\<close> is empty, and
  the call returns the empty replicate set for every sample and estimator, without
  drawing from the generator or calling the estimator.
\<close>

theorem bootstrap_samples_nonpositive:
  "B \<le> 0 \<Longrightarrow> bootstrap_samples choice rvs estimator B g = (Inr [], g)"
  by (simp add: bootstrap_samples_def range_len_def)

theorem bootstrap_samples_nonpositive_witness:
  "(- 3::int) \<le> 0
   \<and> bootstrap_samples (np_choice True lcg_randint) [1, 2, 3::real] mean_estimator (- 3) 7 = (Inr [], 7)"
  using bootstrap_samples_nonpositive[of "- 3" "np_choice True lcg_randint" "[1, 2, 3::real]" mean_estimator 7]
  by simp

theorem bootstrap_samples_zero_counterexample:
  "bootstrap_samples (np_choice True lcg_randint) [1, 2, 3::real] mean_estimator 0 7 = (Inr [], 7)"
  by (simp add: bootstrap_samples_def range_len_def)

subsection \<open>An empty sample\<close>

text \<open>
  C4 (as amended). The claim that an empty sample fails for every number of replicates
  does not hold: the function checks none of its arguments. With an empty sample and a
  number of replicates of zero or less the call returns the empty replicate set. With a
  positive number the outcome is that of the library call on the empty sample in the
  first trial: where \<^verbatim>\<open>np.random.choice\<close> rejects every empty population its \<open>ValueError\<close>
  reaches the caller at once, before the estimator is called; where it returns an empty
  resample for \<open>size = 0\<close> the estimator is applied to the empty resample in each trial,
  and the call returns that many copies of its value, or the estimator's exception.
\<close>

theorem bootstrap_samples_empty_sample:
  "bootstrap_samples (np_choice legacy rng) [] estimator B g =
     (if B \<le> 0 then (Inr [], g)
      else if legacy then (Inl (ChoiceError ValueError), g)
      else (case estimator [] of
              Inl e \<Rightarrow> Inl (EstimatorError e)
            | Inr v \<Rightarrow> Inr (replicate (nat B) v), g))"
proof (cases "B \<le> 0")
  case True
  then show ?thesis by (simp add: bootstrap_samples_def range_len_def)
next
  case False
  then obtain k where k: "range_len B = Suc k" "nat B = Suc k"
    by (cases "nat B") (auto simp: range_len_def)
  show ?thesis
  proof (cases legacy)
    case True
    with False k show ?thesis
      by (simp add: bootstrap_samples_def np_choice_empty_legacy)
  next
    case l: False
    with False k show ?thesis
      by (simp add: bootstrap_samples_def bootstrap_trials_empty_size0 del: bootstrap_trials.simps
            split: sum.split)
  qed
qed

theorem bootstrap_samples_empty_sample_witness:
  "bootstrap_samples (np_choice True lcg_randint) [] mean_estimator 2 7 = (Inl (ChoiceError ValueError), 7)
   \<and> bootstrap_samples (np_choice False lcg_randint) [] mean_estimator 2 7
       = (Inl (EstimatorError ZeroDivisionError), 7)
   \<and> bootstrap_samples (np_choice False lcg_randint) [] (\<lambda>x. Inr (length x) :: py_error + nat) 2 7
       = (Inr [0, 0], 7)"
  using bootstrap_samples_empty_sample[of True lcg_randint mean_estimator 2 7]
    bootstrap_samples_empty_sample[of False lcg_randint mean_estimator 2 7]
    bootstrap_samples_empty_sample[of False lcg_randint "\<lambda>x. Inr (length x) :: py_error + nat" 2 7]
  by (simp add: mean_estimator_def numeral_2_eq_2)

theorem bootstrap_samples_empty_sample_counterexample:
  "bootstrap_samples (np_choice True lcg_randint) ([]::real list) mean_estimator 0 7 = (Inr [], 7)"
  by (simp add: bootstrap_samples_def range_len_def)

subsection \<open>An estimator that raises\<close>

text \<open>
  C5. When every call of \<^verbatim>\<open>np.random.choice\<close> returns (the resamples \<open>rs\<close>, in the order they
  are drawn) and the estimator raises on one of them, the call returns no replicate set: it
  ends with the exception \<open>e\<close> the estimator raised on the first resample on which it
  raises. The trials before it returned values, none of which reaches the caller; the
  exception is neither caught nor replaced by a value.
\<close>

theorem bootstrap_samples_estimator_failure:
  assumes "fst (choice_calls choice rvs (length rvs) (range_len B) g) = map Inr rs"
    and "\<exists>r \<in> set rs. isl (estimator r)"
  shows "\<exists>j e. j < length rs \<and> estimator (rs ! j) = Inl e
           \<and> (\<forall>i<j. \<not> isl (estimator (rs ! i)))
           \<and> fst (bootstrap_samples choice rvs estimator B g) = Inl (EstimatorError e)"
proof -
  let ?cs = "fst (choice_calls choice rvs (length rvs) (range_len B) g)"
  define j where "j = (LEAST j. j < length rs \<and> isl (estimator (rs ! j)))"
  from assms(2) have "\<exists>j. j < length rs \<and> isl (estimator (rs ! j))"
    by (auto simp: in_set_conv_nth)
  then have j: "j < length rs \<and> isl (estimator (rs ! j))"
    unfolding j_def by (rule LeastI_ex)
  have before: "\<not> isl (estimator (rs ! i))" if "i < j" for i
  proof
    assume "isl (estimator (rs ! i))"
    with that j have "i < length rs \<and> isl (estimator (rs ! i))" by simp
    then have "j \<le> i" unfolding j_def by (rule Least_le)
    with that show False by simp
  qed
  from j obtain e where e: "estimator (rs ! j) = Inl e" by (auto simp: isl_def)
  have len: "length rs = range_len B"
    using assms(1) choice_calls_length[of choice rvs "length rvs" "range_len B" g]
    by (metis length_map prod.collapse)
  have 1: "j < range_len B" using j len by simp
  have 2: "?cs ! j = Inr (rs ! j)" using assms(1) j by simp
  have 3: "\<forall>i<j. \<exists>ri vi. ?cs ! i = Inr ri \<and> estimator ri = Inr vi"
  proof (intro allI impI)
    fix i assume i: "i < j"
    with j have "?cs ! i = Inr (rs ! i)" using assms(1) by simp
    moreover from before[OF i] obtain vi where "estimator (rs ! i) = Inr vi"
      by (cases "estimator (rs ! i)") auto
    ultimately show "\<exists>ri vi. ?cs ! i = Inr ri \<and> estimator ri = Inr vi" by blast
  qed
  from bootstrap_trials_first_failure[OF 1 2 e 3]
  have "fst (bootstrap_samples choice rvs estimator B g) = Inl (EstimatorError e)"
    by (simp add: bootstrap_samples_def)
  with j e before show ?thesis by blast
qed

theorem bootstrap_samples_estimator_failure_witness:
  "fst (choice_calls (np_choice False replay_randint) [0, 1::real] (length [0, 1::real]) (range_len 3)
          [0, 1, 1, 1, 0, 0]) = map Inr [[0, 1], [1, 1], [0, 0]]
   \<and> inverse_zero_count [0, 1] = Inr 1
   \<and> inverse_zero_count [1, 1] = Inl ZeroDivisionError
   \<and> fst (bootstrap_samples (np_choice False replay_randint) [0, 1] inverse_zero_count 3
            [0, 1, 1, 1, 0, 0]) = Inl (EstimatorError ZeroDivisionError)"
proof -
  have calls: "fst (choice_calls (np_choice False replay_randint) [0, 1::real] (length [0, 1::real])
      (range_len 3) [0, 1, 1, 1, 0, 0]) = map Inr [[0, 1], [1, 1], [0, 0]]"
    by code_simp
  have "\<exists>r \<in> set [[0, 1], [1, 1], [0, 0::real]]. isl (inverse_zero_count r)"
    by (simp add: inverse_zero_count_raises)
  from bootstrap_samples_estimator_failure[OF calls this]
  obtain e where e: "fst (bootstrap_samples (np_choice False replay_randint) [0, 1] inverse_zero_count 3
            [0, 1, 1, 1, 0, 0]) = Inl (EstimatorError e)" by blast
  have "e = ZeroDivisionError" by (cases e) simp
  with e have "fst (bootstrap_samples (np_choice False replay_randint) [0, 1] inverse_zero_count 3
            [0, 1, 1, 1, 0, 0]) = Inl (EstimatorError ZeroDivisionError)" by simp
  with calls inverse_zero_count_returns inverse_zero_count_raises show ?thesis by (intro conjI)
qed

subsection \<open>The members of a resample\<close>

text \<open>
  C6. For a non-empty sample, a positive \<open>B\<close> and a generator that keeps its draws in
  range, the \<open>B\<close> calls of \<^verbatim>\<open>np.random.choice\<close> all return a resample, and every element of
  every resample is a member of the sample. The estimator sees nothing else: two
  estimators that agree on the lists of members of the sample give the same outcome.
\<close>

theorem bootstrap_samples_resample_members:
  assumes "rvs \<noteq> []" and "0 < B" and "randint_ok rng"
  shows "int (length (fst (choice_calls (np_choice legacy rng) rvs (length rvs) (range_len B) g))) = B
       \<and> (\<forall>c \<in> set (fst (choice_calls (np_choice legacy rng) rvs (length rvs) (range_len B) g)).
            \<exists>r. c = Inr r \<and> (\<forall>x \<in> set r. x \<in> set rvs))
       \<and> ((\<forall>r. set r \<subseteq> set rvs \<longrightarrow> est1 r = est2 r) \<longrightarrow>
            bootstrap_samples (np_choice legacy rng) rvs est1 B g
          = bootstrap_samples (np_choice legacy rng) rvs est2 B g)"
proof (intro conjI)
  let ?cs = "fst (choice_calls (np_choice legacy rng) rvs (length rvs) (range_len B) g)"
  have "length ?cs = range_len B"
    using choice_calls_length[of "np_choice legacy rng" rvs "length rvs" "range_len B" g]
    by (metis prod.collapse)
  with assms(2) show "int (length ?cs) = B" by (simp add: range_len_def)
  from choice_calls_np_choice[OF assms(3,1)]
  show "\<forall>c \<in> set ?cs. \<exists>r. c = Inr r \<and> (\<forall>x \<in> set r. x \<in> set rvs)" by blast
  show "(\<forall>r. set r \<subseteq> set rvs \<longrightarrow> est1 r = est2 r) \<longrightarrow>
            bootstrap_samples (np_choice legacy rng) rvs est1 B g
          = bootstrap_samples (np_choice legacy rng) rvs est2 B g"
    by (simp add: bootstrap_samples_def bootstrap_trials_cong_members)
qed

theorem bootstrap_samples_resample_members_witness:
  "[1, 2, 3::real] \<noteq> [] \<and> (0::int) < 2 \<and> randint_ok lcg_randint
   \<and> fst (choice_calls (np_choice False lcg_randint) [1, 2, 3::real] 3 2 7) = [Inr [2, 1, 2], Inr [3, 3, 2]]
   \<and> list_all (\<lambda>c. \<exists>r. c = Inr r \<and> list_all (\<lambda>x. x \<in> set [1, 2, 3::real]) r)
       (fst (choice_calls (np_choice False lcg_randint) [1, 2, 3::real] (length [1, 2, 3::real])
          (range_len 2) 7))
   \<and> bootstrap_samples (np_choice False lcg_randint) [1, 2, 3] mean_estimator 2 7
     = bootstrap_samples (np_choice False lcg_randint) [1, 2, 3]
         (\<lambda>x. if set x \<subseteq> set [1, 2, 3] then mean_estimator x else Inl ZeroDivisionError) 2 7"
proof -
  have ne: "[1, 2, 3::real] \<noteq> []" and pos: "(0::int) < 2" by simp_all
  have calls: "fst (choice_calls (np_choice False lcg_randint) [1, 2, 3::real] 3 2 7)
      = [Inr [2, 1, 2], Inr [3, 3, 2]]"
    by code_simp
  from bootstrap_samples_resample_members[OF ne pos randint_ok_lcg, of False 7]
  have "list_all (\<lambda>c. \<exists>r. c = Inr r \<and> list_all (\<lambda>x. x \<in> set [1, 2, 3::real]) r)
       (fst (choice_calls (np_choice False lcg_randint) [1, 2, 3::real] (length [1, 2, 3::real])
          (range_len 2) 7))"
    unfolding list_all_iff by blast
  moreover have "\<forall>r. set r \<subseteq> set [1, 2, 3::real] \<longrightarrow> mean_estimator r
      = (if set r \<subseteq> set [1, 2, 3] then mean_estimator r else Inl ZeroDivisionError)"
    by simp
  with bootstrap_samples_resample_members[OF ne pos randint_ok_lcg, of False 7 mean_estimator
      "\<lambda>x. if set x \<subseteq> set [1, 2, 3] then mean_estimator x else Inl ZeroDivisionError"]
  have "bootstrap_samples (np_choice False lcg_randint) [1, 2, 3] mean_estimator 2 7
     = bootstrap_samples (np_choice False lcg_randint) [1, 2, 3]
         (\<lambda>x. if set x \<subseteq> set [1, 2, 3] then mean_estimator x else Inl ZeroDivisionError) 2 7"
    by blast
  ultimately show ?thesis using ne pos randint_ok_lcg calls by (intro conjI)
qed

subsection \<open>A sample of equal values\<close>

text \<open>
  C7. For a non-empty sample whose values all equal \<open>c\<close>, a positive \<open>B\<close> and a generator
  that keeps its draws in range, every replicate of a returning call is the estimator's
  value on \<open>len(rvs)\<close> copies of \<open>c\<close>; and the call returns \<open>B\<close> copies of that value when the
  estimator has a value there, and ends with the estimator's exception otherwise.
\<close>

theorem bootstrap_samples_constant_sample:
  assumes "rvs \<noteq> []" and "\<forall>x \<in> set rvs. x = c" and "0 < B" and "randint_ok rng"
  shows "(\<forall>vs g'. bootstrap_samples (np_choice legacy rng) rvs estimator B g = (Inr vs, g')
            \<longrightarrow> (\<forall>v \<in> set vs. estimator (replicate (length rvs) c) = Inr v))
       \<and> fst (bootstrap_samples (np_choice legacy rng) rvs estimator B g) =
           (case estimator (replicate (length rvs) c) of
              Inl e \<Rightarrow> Inl (EstimatorError e)
            | Inr v \<Rightarrow> Inr (replicate (nat B) v))"
proof -
  from assms(3) obtain k where k: "range_len B = Suc k" "nat B = Suc k"
    by (cases "nat B") (auto simp: range_len_def)
  have eq: "fst (bootstrap_samples (np_choice legacy rng) rvs estimator B g) =
           (case estimator (replicate (length rvs) c) of
              Inl e \<Rightarrow> Inl (EstimatorError e)
            | Inr v \<Rightarrow> Inr (replicate (nat B) v))"
    unfolding bootstrap_samples_def Let_def k
    by (rule bootstrap_trials_constant_sample[OF assms(4,1,2)])
  have "\<forall>v \<in> set vs. estimator (replicate (length rvs) c) = Inr v"
    if "bootstrap_samples (np_choice legacy rng) rvs estimator B g = (Inr vs, g')" for vs g'
  proof (cases "estimator (replicate (length rvs) c)")
    case (Inl e)
    with eq that show ?thesis by simp
  next
    case (Inr v)
    with eq that have "vs = replicate (nat B) v" by simp
    with Inr show ?thesis by simp
  qed
  with eq show ?thesis by blast
qed

theorem bootstrap_samples_constant_sample_witness:
  "[5, 5, 5, 5::real] \<noteq> [] \<and> list_all (\<lambda>x. x = 5) [5, 5, 5, 5::real] \<and> (0::int) < 3
   \<and> randint_ok replay_randint
   \<and> bootstrap_samples (np_choice False replay_randint) [5, 5, 5, 5] mean_estimator 3
       [0, 1, 2, 3, 0, 1, 2, 3, 3, 2, 1, 0] = (Inr [5, 5, 5], [])
   \<and> list_all (\<lambda>v. mean_estimator (replicate (length [5, 5, 5, 5::real]) 5) = Inr v) [5, 5, 5]
   \<and> fst (bootstrap_samples (np_choice False replay_randint) [5, 5, 5, 5] mean_estimator 3
            [0, 1, 2, 3, 0, 1, 2, 3, 3, 2, 1, 0])
       = Inr (replicate (nat 3) 5)"
proof -
  have ne: "[5, 5, 5, 5::real] \<noteq> []" and pos: "(0::int) < 3" by simp_all
  have const: "\<forall>x \<in> set [5, 5, 5, 5::real]. x = 5" by simp
  have run: "bootstrap_samples (np_choice False replay_randint) [5, 5, 5, 5] mean_estimator 3
       [0, 1, 2, 3, 0, 1, 2, 3, 3, 2, 1, 0] = (Inr [5, 5, 5], [])"
    by code_simp
  have rep: "replicate (length [5, 5, 5, 5::real]) (5::real) = [5, 5, 5, 5]" by simp
  note t = bootstrap_samples_constant_sample[OF ne const pos randint_ok_replay,
      of False mean_estimator "[0, 1, 2, 3, 0, 1, 2, 3, 3, 2, 1, 0]"]
  from t run have "\<forall>v \<in> set [5, 5, 5]. mean_estimator (replicate (length [5, 5, 5, 5::real]) 5) = Inr v"
    by blast
  then have each: "list_all (\<lambda>v. mean_estimator (replicate (length [5, 5, 5, 5::real]) 5) = Inr v) [5, 5, 5]"
    unfolding list_all_iff .
  from t have "fst (bootstrap_samples (np_choice False replay_randint) [5, 5, 5, 5] mean_estimator 3
            [0, 1, 2, 3, 0, 1, 2, 3, 3, 2, 1, 0])
       = (case mean_estimator (replicate (length [5, 5, 5, 5::real]) 5) of
            Inl e \<Rightarrow> Inl (EstimatorError e)
          | Inr v \<Rightarrow> Inr (replicate (nat 3) v))"
    by (rule conjunct2)
  then have "fst (bootstrap_samples (np_choice False replay_randint) [5, 5, 5, 5] mean_estimator 3
            [0, 1, 2, 3, 0, 1, 2, 3, 3, 2, 1, 0])
       = Inr (replicate (nat 3) 5)"
    by (simp only: rep mean_estimator_fives sum.case)
  moreover have "list_all (\<lambda>x. x = 5) [5, 5, 5, 5::real]" by simp
  ultimately show ?thesis using ne pos randint_ok_replay run each by (intro conjI)
qed

subsection \<open>The random source\<close>




subsection \<open>The sample after the call\<close>

text \<open>
  C9. On the heap, whatever the outcome of the call: the sample at its address holds
  the same values in the same order, and so does every other array that was there before
  the call; the heap has only grown.
\<close>

theorem bootstrap_samples_heap_sample_unchanged:
  assumes "p < length h"
    and "bootstrap_samples_heap choice p estimator B h g = (res, h', g')"
  shows "h' ! p = h ! p \<and> length h \<le> length h' \<and> take (length h) h' = h"
proof -
  from assms(2) have "bootstrap_trials_heap choice p estimator (length (h ! p)) (range_len B) h g
      = (res, h', g')"
    by (simp add: bootstrap_samples_heap_def)
  from bootstrap_trials_heap_pure[OF assms(1) this] obtain cells where "h' = h @ cells" by blast
  with assms(1) show ?thesis by (simp add: nth_append)
qed

theorem bootstrap_samples_heap_sample_unchanged_witness:
  "(1::nat) < length [[9, 9], [1, 2, 3::real]]
   \<and> bootstrap_samples_heap (np_choice False replay_randint) 1 centring_mean 2 [[9, 9], [1, 2, 3]]
       [0, 0, 1, 2, 2, 1]
     = (Inr [4 / 3, 8 / 3],
        [[9, 9], [1, 2, 3], [- (1 / 3), - (1 / 3), 2 / 3], [1 / 3, 1 / 3, - (2 / 3)]], [])
   \<and> [[9, 9], [1, 2, 3], [- (1 / 3), - (1 / 3), 2 / 3], [1 / 3, 1 / 3, - (2 / 3)]] ! 1
     = [[9, 9], [1, 2, 3::real]] ! 1
   \<and> take (length [[9, 9], [1, 2, 3::real]])
       [[9, 9], [1, 2, 3], [- (1 / 3), - (1 / 3), 2 / 3], [1 / 3, 1 / 3, - (2 / 3)]]
     = [[9, 9], [1, 2, 3::real]]"
proof -
  have p: "(1::nat) < length [[9, 9], [1, 2, 3::real]]" by simp
  have run: "bootstrap_samples_heap (np_choice False replay_randint) 1 centring_mean 2 [[9, 9], [1, 2, 3]]
       [0, 0, 1, 2, 2, 1]
     = (Inr [4 / 3, 8 / 3],
        [[9, 9], [1, 2, 3], [- (1 / 3), - (1 / 3), 2 / 3], [1 / 3, 1 / 3, - (2 / 3)]], [])"
    by code_simp
  from bootstrap_samples_heap_sample_unchanged[OF p run] p run show ?thesis by (intro conjI) blast+
qed

subsection \<open>Each trial has an array of its own\<close>

text \<open>
  C10. On the heap, with an estimator that may write to its argument: the outcome and
  the generator are those of the run on the contents of the sample with the estimator's
  value alone, so no write of the estimator reaches the sample or a later resample; the
  heap after the call is the heap before it followed by at most \<open>B\<close> new arrays; and after
  a returning call these are, trial by trial, the resamples drawn from the sample as the
  estimator left them, each at an address of its own, new at the time of its trial.
\<close>

theorem bootstrap_samples_heap_fresh_resamples:
  assumes "p < length h"
    and "bootstrap_samples_heap choice p estimator B h g = (res, h', g')"
  shows "bootstrap_samples choice (h ! p) (\<lambda>r. fst (estimator r)) B g = (res, g')
       \<and> (\<exists>cells. h' = h @ cells \<and> length cells \<le> range_len B)
       \<and> (\<forall>vs. res = Inr vs \<longrightarrow>
            (\<exists>rs. fst (choice_calls choice (h ! p) (length (h ! p)) (range_len B) g) = map Inr rs
               \<and> h' = h @ map (\<lambda>r. snd (estimator r)) rs
               \<and> map (\<lambda>r. fst (estimator r)) rs = map Inr vs))"
proof -
  from assms(2) have run: "bootstrap_trials_heap choice p estimator (length (h ! p)) (range_len B) h g
      = (res, h', g')"
    by (simp add: bootstrap_samples_heap_def)
  from bootstrap_trials_heap_pure[OF assms(1) run]
  have "bootstrap_samples choice (h ! p) (\<lambda>r. fst (estimator r)) B g = (res, g')"
    and "\<exists>cells. h' = h @ cells \<and> length cells \<le> range_len B"
    by (simp_all add: bootstrap_samples_def)
  moreover have "\<exists>rs. fst (choice_calls choice (h ! p) (length (h ! p)) (range_len B) g) = map Inr rs
               \<and> h' = h @ map (\<lambda>r. snd (estimator r)) rs
               \<and> map (\<lambda>r. fst (estimator r)) rs = map Inr vs" if "res = Inr vs" for vs
  proof -
    from run that have "bootstrap_trials_heap choice p estimator (length (h ! p)) (range_len B) h g
      = (Inr vs, h', g')" by simp
    then show ?thesis by (rule bootstrap_trials_heap_cells[OF assms(1)])
  qed
  ultimately show ?thesis by blast
qed

theorem bootstrap_samples_heap_fresh_resamples_witness:
  "(1::nat) < length [[9, 9], [1, 2, 3::real]]
   \<and> bootstrap_samples_heap (np_choice False replay_randint) 1 centring_mean 2 [[9, 9], [1, 2, 3]]
       [0, 0, 1, 2, 2, 1]
     = (Inr [4 / 3, 8 / 3],
        [[9, 9], [1, 2, 3], [- (1 / 3), - (1 / 3), 2 / 3], [1 / 3, 1 / 3, - (2 / 3)]], [])
   \<and> bootstrap_samples (np_choice False replay_randint) ([[9, 9], [1, 2, 3::real]] ! 1)
       (\<lambda>r. fst (centring_mean r)) 2 [0, 0, 1, 2, 2, 1] = (Inr [4 / 3, 8 / 3], [])
   \<and> fst (choice_calls (np_choice False replay_randint) [1, 2, 3::real] 3 2 [0, 0, 1, 2, 2, 1])
       = map Inr [[1, 1, 2], [3, 3, 2]]
   \<and> (\<exists>rs. fst (choice_calls (np_choice False replay_randint) ([[9, 9], [1, 2, 3::real]] ! 1)
                 (length ([[9, 9], [1, 2, 3::real]] ! 1)) (range_len 2) [0, 0, 1, 2, 2, 1]) = map Inr rs
          \<and> [[9, 9], [1, 2, 3], [- (1 / 3), - (1 / 3), 2 / 3], [1 / 3, 1 / 3, - (2 / 3)]]
              = [[9, 9], [1, 2, 3]] @ map (\<lambda>r. snd (centring_mean r)) rs
          \<and> map (\<lambda>r. fst (centring_mean r)) rs = map Inr [4 / 3, 8 / 3])"
proof -
  have p: "(1::nat) < length [[9, 9], [1, 2, 3::real]]" by simp
  have run: "bootstrap_samples_heap (np_choice False replay_randint) 1 centring_mean 2 [[9, 9], [1, 2, 3]]
       [0, 0, 1, 2, 2, 1]
     = (Inr [4 / 3, 8 / 3],
        [[9, 9], [1, 2, 3], [- (1 / 3), - (1 / 3), 2 / 3], [1 / 3, 1 / 3, - (2 / 3)]], [])"
    by code_simp
  have calls: "fst (choice_calls (np_choice False replay_randint) [1, 2, 3::real] 3 2 [0, 0, 1, 2, 2, 1])
       = map Inr [[1, 1, 2], [3, 3, 2]]"
    by code_simp
  from bootstrap_samples_heap_fresh_resamples[OF p run]
  have "bootstrap_samples (np_choice False replay_randint) ([[9, 9], [1, 2, 3::real]] ! 1)
       (\<lambda>r. fst (centring_mean r)) 2 [0, 0, 1, 2, 2, 1] = (Inr [4 / 3, 8 / 3], [])"
    by blast
  moreover from bootstrap_samples_heap_fresh_resamples[OF p run]
  have "\<exists>rs. fst (choice_calls (np_choice False replay_randint) ([[9, 9], [1, 2, 3::real]] ! 1)
                 (length ([[9, 9], [1, 2, 3::real]] ! 1)) (range_len 2) [0, 0, 1, 2, 2, 1]) = map Inr rs
          \<and> [[9, 9], [1, 2, 3], [- (1 / 3), - (1 / 3), 2 / 3], [1 / 3, 1 / 3, - (2 / 3)]]
              = [[9, 9], [1, 2, 3]] @ map (\<lambda>r. snd (centring_mean r)) rs
          \<and> map (\<lambda>r. fst (centring_mean r)) rs = map Inr [4 / 3, 8 / 3]"
    by blast
  ultimately show ?thesis using p run calls by (intro conjI)
qed

end
